theory Spec2Isabelle
  imports Complex_Main "HOL-Library.Multiset" "HOL-Library.Sublist"
begin

section \<open>Data model of \<open>src/App.tsx\<close>\<close>

text \<open>
  A JavaScript \<open>number\<close> as the clip code uses it: either the not-a-number sentinel that
  \<open>parseTimeToSeconds\<close> yields on malformed text, or a finite value. Every comparison with
  \<open>NaN\<close> is false, as in JavaScript.
\<close>

datatype jsnum = NaN | Num real

fun js_ge :: "jsnum \<Rightarrow> jsnum \<Rightarrow> bool" where
  "js_ge (Num a) (Num b) = (a \<ge> b)"
| "js_ge _ _ = False"

definition isNaN :: "jsnum \<Rightarrow> bool" where
  "isNaN x = (x = NaN)"

text \<open>
  \<open>Clip\<close> of \<open>./types\<close>: \<open>{ id: string, start: number, end: number }\<close>. The fields are
  prefixed because \<open>id\<close> and \<open>end\<close> are taken in Isabelle. A queued clip holds finite
  numbers: \<open>handleAddClip\<close> stores a clip only after both \<open>isNaN\<close> tests have failed.
\<close>

record Clip =
  clip_id :: string
  clip_start :: real
  clip_end :: real

text \<open>What \<open>throw\<close> can deliver to the \<open>catch\<close> block of \<open>handleCreateVideo\<close>: a
  \<open>DOMException\<close> with its name and message, another \<open>Error\<close> with its message, or a value
  that is no \<open>Error\<close> at all.\<close>

datatype exn = DOMException string string | Error string | Thrown

type_synonym blob = "nat list"

datatype url = ObjectURL blob

datatype recorder_state = Inactive | Recording

text \<open>
  The calls the component makes on its collaborators (platform, recorder, tracks, playback
  surface, timers), in the order it makes them. \<open>Progress i n clip\<close> is the status update
  \<open>Recording clip i of n (...)\<close> of the orchestration loop; \<open>Resolve\<close> is the call of the
  promise's \<open>resolve\<close> by the settle timeout.
\<close>

datatype effect =
    GetDisplayMedia
  | AddEventListener
  | RemoveEventListener
  | NewMediaRecorder
  | RecorderStart
  | RecorderStop
  | TrackStop nat
  | ConsoleError
  | IsMuted
  | UnMute
  | SetVolume nat
  | Progress nat nat Clip
  | SeekTo real bool
  | PlayVideo
  | SetInterval nat
  | GetCurrentTime jsnum
  | ClearInterval
  | PauseVideo
  | SetTimeout nat
  | Resolve

text \<open>
  The playback surface is outside the program; it is modelled by the answers it gives.
  \<open>surface\<close> is the surface for the duration of one \<open>playSegment\<close> call: whether
  \<open>seekTo\<close> throws, and the value of the \<open>k\<close>-th \<open>getCurrentTime()\<close> sample.
  \<open>player\<close> is the handle in \<open>playerRef.current\<close>: its mute flag, whether the control
  calls of step 3 throw, and the surface during the \<open>i\<close>-th segment of a run.
\<close>

record surface =
  seekToThrows :: "exn option"
  getCurrentTime :: "nat \<Rightarrow> jsnum"

record player =
  isMuted :: bool
  controlThrows :: "exn option"
  segment :: "nat \<Rightarrow> surface"

text \<open>
  The platform during one run: the outcome of \<open>getDisplayMedia\<close> (a rejection, or a stream
  with that many tracks), whether \<open>new MediaRecorder\<close> throws, the data the recorder hands to
  \<open>ondataavailable\<close> when it is stopped (\<open>recorder.start()\<close> is called without a timeslice,
  so there is no earlier \<open>dataavailable\<close> event), and the \<open>visibilitychange\<close> events that
  arrive while segment \<open>i\<close> is awaited (\<open>True\<close>: the document is hidden).
\<close>

record env =
  displayMedia :: "exn + nat"
  recorderCtor :: "exn option"
  captured :: blob
  arrivals :: "nat \<Rightarrow> bool list"

text \<open>
  The component state (\<open>useState\<close>, \<open>useRef\<close>) the modelled handlers touch, followed by
  the variables local to one run of \<open>handleCreateVideo\<close> that its closures share:
  \<open>stream\<close> (per track, the number of \<open>stop()\<close> calls it has received), \<open>recorder\<close>,
  whether this run's \<open>visibilityHandler\<close> is registered, whether the recorder has queued its
  \<open>dataavailable\<close>/\<open>stop\<close> events, and the log of effects.
\<close>

record app =
  clips :: "Clip list"
  startTime :: string
  endTime :: string
  isProcessing :: bool
  processingStatus :: string
  finishedVideoUrl :: "url option"
  error :: "string option"
  playerRef :: "player option"
  recordedChunks :: "blob list"
  stream :: "nat list option"
  recorder :: "recorder_state option"
  listener :: bool
  stopQueued :: bool
  trace :: "effect list"

text \<open>The state of a freshly mounted component, from the \<open>useState\<close> and \<open>useRef\<close>
  initial values.\<close>

definition initialApp :: app where
  "initialApp =
     \<lparr>clips = [], startTime = [], endTime = [], isProcessing = False, processingStatus = [],
      finishedVideoUrl = None, error = None, playerRef = None, recordedChunks = [],
      stream = None, recorder = None, listener = False, stopQueued = False, trace = []\<rparr>"

section \<open>Clip queue: \<open>handleAddClip\<close>\<close>

text \<open>
  \<open>Array.prototype.sort\<close> with a comparator is a stable sort; for a consistent comparator
  its result is the one of stable insertion sort, which is what \<open>js_sort\<close> computes
  (\<open>cmp x y \<le> 0\<close>: \<open>x\<close> may stay in front of \<open>y\<close>).
\<close>

fun js_insert :: "('a \<Rightarrow> 'a \<Rightarrow> real) \<Rightarrow> 'a \<Rightarrow> 'a list \<Rightarrow> 'a list" where
  "js_insert cmp x [] = [x]"
| "js_insert cmp x (y # ys) = (if cmp x y \<le> 0 then x # y # ys else y # js_insert cmp x ys)"

definition js_sort :: "('a \<Rightarrow> 'a \<Rightarrow> real) \<Rightarrow> 'a list \<Rightarrow> 'a list" where
  "js_sort cmp xs = foldr (js_insert cmp) xs []"

definition byStart :: "Clip \<Rightarrow> Clip \<Rightarrow> real" where
  "byStart a b = clip_start a - clip_start b"

definition digit :: "nat \<Rightarrow> char" where
  "digit n = ''0123456789'' ! n"

fun show_nat :: "nat \<Rightarrow> string" where
  "show_nat n = (if n < 10 then [digit n] else show_nat (n div 10) @ [digit (n mod 10)])"

declare show_nat.simps [simp del]

text \<open>
  \<open>parseTimeToSeconds\<close> (\<open>./utils/time\<close>) is not part of the sources and is a parameter;
  \<open>now\<close> is the value of \<open>Date.now()\<close>.
\<close>

definition handleAddClip :: "(string \<Rightarrow> jsnum) \<Rightarrow> nat \<Rightarrow> app \<Rightarrow> app" where
  "handleAddClip parseTimeToSeconds now s0 =
     (let s = s0\<lparr>error := None\<rparr>;
          start = parseTimeToSeconds (startTime s);
          end' = parseTimeToSeconds (endTime s)
      in if js_ge start end' then s\<lparr>error := Some ''End time must be after start time.''\<rparr>
         else if isNaN start \<or> isNaN end'
           then s\<lparr>error := Some ''Invalid time format. Please use MM:SS or HH:MM:SS.''\<rparr>
         else (case (start, end') of
             (Num a, Num b) \<Rightarrow>
               let newClip = \<lparr>clip_id = show_nat now, clip_start = a, clip_end = b\<rparr>
               in s\<lparr>clips := js_sort byStart (clips s @ [newClip]), startTime := [], endTime := []\<rparr>
           | _ \<Rightarrow> s))"

section \<open>Segment player: \<open>playSegment\<close>\<close>

text \<open>
  One run of the \<open>setInterval\<close> callback, at its \<open>k\<close>-th firing, with the current value of
  the \<open>resolved\<close> flag. It returns the calls made, the new flag, and whether
  \<open>clearInterval(checkInterval)\<close> was called.
\<close>

definition checkInterval :: "surface \<Rightarrow> real \<Rightarrow> nat \<Rightarrow> bool \<Rightarrow> effect list \<times> bool \<times> bool" where
  "checkInterval player end' k resolved =
     (if resolved then ([ClearInterval], resolved, True)
      else let currentTime = getCurrentTime player k
           in if js_ge currentTime (Num end')
              then ([GetCurrentTime currentTime, ClearInterval, PauseVideo, SetTimeout 200], True, True)
              else ([GetCurrentTime currentTime], resolved, False))"

text \<open>
  The timer: the callback fires again and again until the interval has been cleared. There
  is no other exit, so a surface that never reports a position \<open>\<ge> end\<close> gives \<open>None\<close>.
\<close>

partial_function (option) pollLoop ::
    "surface \<Rightarrow> real \<Rightarrow> nat \<Rightarrow> bool \<Rightarrow> effect list \<Rightarrow> effect list option" where
  "pollLoop player end' k resolved tr =
     (case checkInterval player end' k resolved of
        (effs, resolved', cleared) \<Rightarrow>
          if cleared then Some (tr @ effs)
          else pollLoop player end' (Suc k) resolved' (tr @ effs))"

declare pollLoop.simps [code]

datatype outcome = Resolved | Rejected exn

text \<open>
  The promise of \<open>playSegment\<close>: an exception in the executor rejects it at once; otherwise
  it resolves when the settle timeout, set by the callback that cleared the interval, fires.
\<close>

definition playSegment :: "surface \<Rightarrow> real \<Rightarrow> real \<Rightarrow> (outcome \<times> effect list) option" where
  "playSegment player start end' =
     (case seekToThrows player of
        Some err \<Rightarrow> Some (Rejected err, [SeekTo start True])
      | None \<Rightarrow>
          (case pollLoop player end' 0 False [SeekTo start True, PlayVideo, SetInterval 100] of
             None \<Rightarrow> None
           | Some tr \<Rightarrow> Some (Resolved, tr @ [Resolve])))"

text \<open>
  For stating what \<open>playSegment\<close> does: the \<open>k\<close>-th sample has reached \<open>end\<close>; the
  sampling calls from firing \<open>k\<close> up to, not including, firing \<open>m\<close>; and the calls of
  a segment whose sample number \<open>k\<close> (counting from 0) is the one that ends the polling.
\<close>

definition reached :: "surface \<Rightarrow> real \<Rightarrow> nat \<Rightarrow> bool" where
  "reached player end' k = js_ge (getCurrentTime player k) (Num end')"

definition samples :: "surface \<Rightarrow> nat \<Rightarrow> nat \<Rightarrow> effect list" where
  "samples player k m = map (\<lambda>j. GetCurrentTime (getCurrentTime player j)) [k..<m]"

definition segmentTrace :: "surface \<Rightarrow> real \<Rightarrow> nat \<Rightarrow> effect list" where
  "segmentTrace player start k =
     [SeekTo start True, PlayVideo, SetInterval 100] @ samples player 0 (Suc k)
       @ [ClearInterval, PauseVideo, SetTimeout 200, Resolve]"

section \<open>Capture session and cancellation watcher\<close>

definition emit :: "effect list \<Rightarrow> app \<Rightarrow> app" where
  "emit effs s = s\<lparr>trace := trace s @ effs\<rparr>"

definition stopTracks :: "app \<Rightarrow> app" where
  "stopTracks s =
     (case stream s of
        None \<Rightarrow> s
      | Some ts \<Rightarrow> emit (map TrackStop [0..<length ts]) (s\<lparr>stream := Some (map Suc ts)\<rparr>))"

definition removeEventListener :: "app \<Rightarrow> app" where
  "removeEventListener s = emit [RemoveEventListener] (s\<lparr>listener := False\<rparr>)"

definition addEventListener :: "app \<Rightarrow> app" where
  "addEventListener s = emit [AddEventListener] (s\<lparr>listener := True\<rparr>)"

text \<open>\<open>recorder.stop()\<close>: the state becomes inactive at once, the \<open>dataavailable\<close> and
  \<open>stop\<close> events are queued.\<close>

definition recorder_stop :: "app \<Rightarrow> app" where
  "recorder_stop s = emit [RecorderStop] (s\<lparr>recorder := Some Inactive, stopQueued := True\<rparr>)"

definition cancelledMessage :: string where
  "cancelledMessage = ''Recording stopped: you switched away from the tab. Please stay on this tab during the entire recording process.''"

definition visibilityHandler :: "bool \<Rightarrow> app \<Rightarrow> app" where
  "visibilityHandler hidden s =
     (if hidden then
        let s1 = (if recorder s = Some Recording then recorder_stop s else s);
            s2 = stopTracks s1;
            s3 = removeEventListener s2
        in s3\<lparr>error := Some cancelledMessage, isProcessing := False\<rparr>
      else s)"

definition ondataavailable :: "blob \<Rightarrow> app \<Rightarrow> app" where
  "ondataavailable data s =
     (if length data > 0 then s\<lparr>recordedChunks := recordedChunks s @ [data]\<rparr> else s)"

definition onstop :: "app \<Rightarrow> app" where
  "onstop s =
     (let s1 = removeEventListener s;
          s2 = (if length (recordedChunks s1) > 0
                then s1\<lparr>finishedVideoUrl := Some (ObjectURL (concat (recordedChunks s1))),
                        processingStatus := ''Done!''\<rparr>
                else s1);
          s3 = s2\<lparr>isProcessing := False\<rparr>
      in stopTracks s3)"

text \<open>The event loop delivers what \<open>recorder.stop()\<close> queued: the gathered data, then
  \<open>stop\<close>.\<close>

definition flush :: "env \<Rightarrow> app \<Rightarrow> app" where
  "flush env s =
     (if stopQueued s then onstop (ondataavailable (captured env) (s\<lparr>stopQueued := False\<rparr>))
      else s)"

text \<open>A \<open>visibilitychange\<close> event reaches the handler only while it is registered.\<close>

definition deliver :: "env \<Rightarrow> bool \<Rightarrow> app \<Rightarrow> app" where
  "deliver env hidden s = flush env (if listener s then visibilityHandler hidden s else s)"

fun deliverAll :: "env \<Rightarrow> bool list \<Rightarrow> app \<Rightarrow> app" where
  "deliverAll env [] s = s"
| "deliverAll env (h # hs) s = deliverAll env hs (deliver env h s)"

section \<open>Orchestrator: \<open>handleCreateVideo\<close>\<close>

text \<open>\<open>formatTime\<close> (\<open>./utils/time\<close>) is not part of the sources and is a parameter.\<close>

definition statusRecording :: "(real \<Rightarrow> string) \<Rightarrow> nat \<Rightarrow> nat \<Rightarrow> Clip \<Rightarrow> string" where
  "statusRecording formatTime i n clip =
     ''Recording clip '' @ show_nat (i + 1) @ '' of '' @ show_nat n @ '' (''
       @ formatTime (clip_start clip) @ '' - '' @ formatTime (clip_end clip) @ '')''"

text \<open>
  The \<open>for\<close> loop, from index \<open>i\<close> over the clips that remain; \<open>n\<close> is \<open>clips.length\<close>.
  The handlers that run while segment \<open>i\<close> is awaited touch neither the surface nor the
  timer, so their place inside the wait does not matter; they are run at its end. The result
  is the exception the \<open>await\<close> threw, if any, and the state; \<open>None\<close> when a segment never
  resolves.
\<close>

fun segmentLoop ::
    "env \<Rightarrow> (real \<Rightarrow> string) \<Rightarrow> player \<Rightarrow> nat \<Rightarrow> nat \<Rightarrow> Clip list \<Rightarrow> app \<Rightarrow> (exn option \<times> app) option" where
  "segmentLoop env formatTime p n i [] s = Some (None, s)"
| "segmentLoop env formatTime p n i (clip # rest) s =
     (let s1 = emit [Progress (i + 1) n clip]
                 (s\<lparr>processingStatus := statusRecording formatTime i n clip\<rparr>)
      in case playSegment (segment p i) (clip_start clip) (clip_end clip) of
           None \<Rightarrow> None
         | Some (Rejected err, tr) \<Rightarrow> Some (Some err, emit tr s1)
         | Some (Resolved, tr) \<Rightarrow>
             segmentLoop env formatTime p n (Suc i) rest
               (deliverAll env (arrivals env i) (emit tr s1)))"

text \<open>
  The body of \<open>try\<close>, up to the exception that leaves it, if any. The awaited
  \<open>getDisplayMedia\<close> may reject and \<open>new MediaRecorder\<close> may throw; so may the player calls
  of step 3 and the executor of a segment's promise. \<open>playerRef.current\<close> is read again
  after the await: were it \<open>null\<close> there, \<open>player.isMuted()\<close> would throw (the guard of
  \<open>handleCreateVideo\<close> has excluded that, the ref being the same throughout a run).
  \<open>recorder.start()\<close> on the fresh recorder and the guarded \<open>recorder.stop()\<close> are taken
  not to throw.
\<close>

definition tryBlock :: "env \<Rightarrow> (real \<Rightarrow> string) \<Rightarrow> app \<Rightarrow> (exn option \<times> app) option" where
  "tryBlock env formatTime s =
     (case displayMedia env of
        Inl err \<Rightarrow> Some (Some err, emit [GetDisplayMedia] s)
      | Inr ntracks \<Rightarrow>
          let s1 = emit [GetDisplayMedia] (s\<lparr>stream := Some (replicate ntracks 0)\<rparr>);
              s2 = addEventListener s1
          in (case recorderCtor env of
                Some err \<Rightarrow> Some (Some err, emit [NewMediaRecorder] s2)
              | None \<Rightarrow>
                  let s3 = emit [NewMediaRecorder] (s2\<lparr>recorder := Some Inactive\<rparr>);
                      s4 = s3\<lparr>recordedChunks := []\<rparr>;
                      s5 = emit [RecorderStart] (s4\<lparr>recorder := Some Recording\<rparr>)
                  in (case playerRef s5 of
                        None \<Rightarrow> Some (Some (Error ''player is null''), s5)
                      | Some p \<Rightarrow>
                         (case controlThrows p of
                            Some err \<Rightarrow> Some (Some err, emit [IsMuted] s5)
                          | None \<Rightarrow>
                              let s6 = emit (if isMuted p then [IsMuted, UnMute] else [IsMuted]) s5;
                                  s7 = emit [SetVolume 100] s6
                              in (case segmentLoop env formatTime p (length (clips s)) 0 (clips s) s7 of
                                    None \<Rightarrow> None
                                  | Some (Some err, s8) \<Rightarrow> Some (Some err, s8)
                                  | Some (None, s8) \<Rightarrow>
                                      Some (None, if recorder s8 = Some Recording
                                                  then recorder_stop s8 else s8))))))"

definition catchBlock :: "exn \<Rightarrow> app \<Rightarrow> app" where
  "catchBlock err s =
     (let s1 = removeEventListener s;
          s2 = emit [ConsoleError] s1;
          errorMessage =
            (case err of
               DOMException name message \<Rightarrow>
                 if name = ''NotAllowedError''
                 then ''Permission to share screen was denied. Please try again and grant the necessary permissions.''
                 else ''Could not start screen capture: '' @ message
             | Error message \<Rightarrow> ''An error occurred: '' @ message
             | Thrown \<Rightarrow> ''An unknown error occurred during video capture.'')
      in s2\<lparr>error := Some errorMessage, isProcessing := False\<rparr>)"

definition handleCreateVideo :: "env \<Rightarrow> (real \<Rightarrow> string) \<Rightarrow> app \<Rightarrow> app option" where
  "handleCreateVideo env formatTime s =
     (if length (clips s) = 0 \<or> playerRef s = None
      then Some (s\<lparr>error := Some ''Please add at least one clip.''\<rparr>)
      else
        let s1 = s\<lparr>error := None, finishedVideoUrl := None, isProcessing := True,
                   processingStatus := ''Action Required: Please select THIS tab in the screen share prompt.''\<rparr>;
            s2 = s1\<lparr>stream := None, recorder := None, listener := False, stopQueued := False\<rparr>
        in (case tryBlock env formatTime s2 of
              None \<Rightarrow> None
            | Some (None, s3) \<Rightarrow> Some s3
            | Some (Some err, s3) \<Rightarrow> Some (catchBlock err s3)))"

text \<open>A whole run: the handler, then the event loop delivers the recorder's queued events.\<close>

definition runCreateVideo :: "env \<Rightarrow> (real \<Rightarrow> string) \<Rightarrow> app \<Rightarrow> app option" where
  "runCreateVideo env formatTime s = map_option (flush env) (handleCreateVideo env formatTime s)"


fun segmentEvent :: "effect \<Rightarrow> bool" where
  "segmentEvent (Progress i n clip) = True"
| "segmentEvent (SeekTo t b) = True"
| "segmentEvent Resolve = True"
| "segmentEvent _ = False"



text \<open>
  \<open>started n p s\<close> is the state in which the loop is entered when a stream with \<open>n\<close>
  tracks was granted, the recorder was created and the player \<open>p\<close> obeyed: steps 2 and 3
  applied to \<open>s\<close>. \<open>watched\<close>: while this run's handler is registered, the recorder is
  recording.
\<close>

definition started :: "nat \<Rightarrow> player \<Rightarrow> app \<Rightarrow> app" where
  "started ntracks p s =
     s\<lparr>stream := Some (replicate ntracks 0), listener := True, recorder := Some Recording,
       recordedChunks := [],
       trace := trace s @ [GetDisplayMedia, AddEventListener, NewMediaRecorder, RecorderStart]
                  @ (if isMuted p then [IsMuted, UnMute] else [IsMuted]) @ [SetVolume 100]\<rparr>"

definition watched :: "app \<Rightarrow> bool" where
  "watched s = (listener s \<longrightarrow> recorder s = Some Recording)"

text \<open>
  \<open>timerEvent\<close> selects the starts and the cancellations of interval timers;
  \<open>timerPairs m\<close> is \<open>m\<close> timers, each started and then cancelled before the next starts.
\<close>

fun timerEvent :: "effect \<Rightarrow> bool" where
  "timerEvent (SetInterval d) = True"
| "timerEvent ClearInterval = True"
| "timerEvent _ = False"


section \<open>Concrete inputs\<close>

text \<open>A parser standing in for \<open>parseTimeToSeconds\<close> on four texts, and clips by their
  three fields.\<close>

definition parseDemo :: "string \<Rightarrow> jsnum" where
  "parseDemo t = (if t = ''0:05'' then Num 5 else if t = ''0:10'' then Num 10
                  else if t = ''0:20'' then Num 20 else NaN)"

definition demoClip :: "string \<Rightarrow> real \<Rightarrow> real \<Rightarrow> Clip" where
  "demoClip i a b = \<lparr>clip_id = i, clip_start = a, clip_end = b\<rparr>"

text \<open>
  A surface that, during segment \<open>i\<close>, reports \<open>15 i + 5 + 3 k\<close> at its \<open>k\<close>-th sample
  (5, 8, 11 during the first segment; 20, 23, 26 during the second); a muted player on top
  of it; a platform that grants a two-track stream, records three bytes and sends no
  \<open>visibilitychange\<close>; and a component holding the clips \<open>(5,10)\<close> and \<open>(20,25)\<close>.
\<close>

definition demoSurface :: "nat \<Rightarrow> surface" where
  "demoSurface i = \<lparr>seekToThrows = None, getCurrentTime = (\<lambda>k. Num (15 * real i + 5 + 3 * real k))\<rparr>"

definition demoPlayer :: player where
  "demoPlayer = \<lparr>isMuted = True, controlThrows = None, segment = demoSurface\<rparr>"

definition demoFormat :: "real \<Rightarrow> string" where
  "demoFormat t = show_nat (nat \<lfloor>t\<rfloor>)"

definition demoEnv :: env where
  "demoEnv = \<lparr>displayMedia = Inr 2, recorderCtor = None, captured = [7, 7, 7], arrivals = (\<lambda>i. [])\<rparr>"

definition demoApp :: app where
  "demoApp = initialApp\<lparr>clips := [demoClip ''a'' 5 10, demoClip ''b'' 20 25],
                         playerRef := Some demoPlayer\<rparr>"



definition demoEnvDenied :: env where
  "demoEnvDenied = demoEnv\<lparr>displayMedia := Inl (DOMException ''NotAllowedError'' ''Permission denied'')\<rparr>"

definition demoEnvNoWebm :: env where
  "demoEnvNoWebm = demoEnv\<lparr>recorderCtor := Some (DOMException ''NotSupportedError'' ''mimeType is not supported'')\<rparr>"

definition demoAppBroken :: app where
  "demoAppBroken = demoApp\<lparr>playerRef := Some (demoPlayer\<lparr>segment :=
      (\<lambda>i. if i = 1 then (demoSurface 1)\<lparr>seekToThrows := Some (Error ''player destroyed'')\<rparr>
           else demoSurface i)\<rparr>)\<rparr>"

section \<open>The segment player\<close>

lemma pollLoop_reached:
  "reached player e k \<Longrightarrow>
   pollLoop player e k False tr
     = Some (tr @ [GetCurrentTime (getCurrentTime player k), ClearInterval, PauseVideo, SetTimeout 200])"
  by (subst pollLoop.simps) (simp add: checkInterval_def reached_def)

lemma pollLoop_not_reached:
  "\<not> reached player e k \<Longrightarrow>
   pollLoop player e k False tr
     = pollLoop player e (Suc k) False (tr @ [GetCurrentTime (getCurrentTime player k)])"
  by (subst pollLoop.simps) (simp add: checkInterval_def reached_def)

lemma pollLoop_first:
  assumes "reached player e (k + d)" and "\<forall>j<d. \<not> reached player e (k + j)"
  shows "pollLoop player e k False tr
           = Some (tr @ samples player k (Suc (k + d)) @ [ClearInterval, PauseVideo, SetTimeout 200])"
  using assms
proof (induction d arbitrary: k tr)
  case 0
  then show ?case by (simp add: pollLoop_reached samples_def)
next
  case (Suc d)
  from Suc.prems(2) have nr: "\<not> reached player e k" by (metis add.right_neutral zero_less_Suc)
  have r: "reached player e (Suc k + d)" using Suc.prems(1) by simp
  have n: "\<forall>j<d. \<not> reached player e (Suc k + j)"
  proof (intro allI impI)
    fix j assume "j < d"
    then have "Suc j < Suc d" by simp
    with Suc.prems(2) have "\<not> reached player e (k + Suc j)" by blast
    then show "\<not> reached player e (Suc k + j)" by simp
  qed
  have "samples player k (Suc (k + Suc d)) = GetCurrentTime (getCurrentTime player k) # samples player (Suc k) (Suc (Suc k + d))"
    by (simp add: samples_def upt_conv_Cons del: upt_Suc)
  with Suc.IH [OF r n] nr show ?case
    by (simp add: pollLoop_not_reached)
qed

lemma pollLoop_Some_reached:
  assumes "pollLoop player e k resolved tr = Some y"
  shows "\<not> resolved \<longrightarrow> (\<exists>m\<ge>k. reached player e m)"
  using assms
proof (induct rule: pollLoop.raw_induct [rotated 1, consumes 1, case_names step])
  case (step pl player e k resolved tr y)
  show ?case
  proof (cases "resolved \<or> reached player e k")
    case True
    then show ?thesis by blast
  next
    case False
    with step(2) have "pl player e (Suc k) False (tr @ [GetCurrentTime (getCurrentTime player k)]) = Some y"
      by (simp add: checkInterval_def reached_def)
    from step(1) [OF this] obtain m where "m \<ge> Suc k" "reached player e m" by auto
    then show ?thesis by (meson Suc_leD)
  qed
qed

lemma first_reached:
  assumes "reached player e m"
  shows "\<exists>k\<le>m. reached player e k \<and> (\<forall>j<k. \<not> reached player e j)"
proof -
  let ?k = "LEAST k. reached player e k"
  have "reached player e ?k" using assms by (rule LeastI)
  moreover have "?k \<le> m" using assms by (rule Least_le)
  moreover have "\<forall>j<?k. \<not> reached player e j" using not_less_Least by blast
  ultimately show ?thesis by blast
qed

lemma playSegment_first:
  assumes "seekToThrows player = None" "reached player e k" "\<forall>j<k. \<not> reached player e j"
  shows "playSegment player start e = Some (Resolved, segmentTrace player start k)"
  using pollLoop_first [of player e 0 k] assms
  by (simp add: playSegment_def segmentTrace_def)

lemma playSegment_settled:
  assumes "seekToThrows player = None" and "playSegment player start e = Some (r, tr)"
  shows "r = Resolved \<and> (\<exists>k. reached player e k \<and> (\<forall>j<k. \<not> reached player e j)
                              \<and> tr = segmentTrace player start k)"
proof -
  from assms obtain tr0
    where p: "pollLoop player e 0 False [SeekTo start True, PlayVideo, SetInterval 100] = Some tr0"
    by (auto simp add: playSegment_def split: option.splits)
  from pollLoop_Some_reached [OF p] obtain m where "reached player e m" by auto
  from first_reached [OF this] obtain k
    where k: "reached player e k" "\<forall>j<k. \<not> reached player e j" by blast
  from playSegment_first [OF assms(1) k] assms(2) k show ?thesis by auto
qed


text \<open>
  C4. When \<open>seekTo\<close> does not throw, \<open>playSegment\<close> resolves exactly when some sample
  reaches \<open>end\<close>, and then its calls are, in this order: \<open>seekTo(start, true)\<close>,
  \<open>playVideo()\<close>, \<open>setInterval(_, 100)\<close>, one \<open>getCurrentTime()\<close> per firing up to
  and including the first sample \<open>k\<close> with position \<open>>= end\<close> (every earlier sample is
  below \<open>end\<close>), \<open>clearInterval\<close>, \<open>pauseVideo()\<close>, \<open>setTimeout(resolve, 200)\<close>, and
  only then \<open>resolve\<close>. This holds for every surface, monotonic or not; a surface that never
  reaches \<open>end\<close> leaves the promise pending.
\<close>

theorem playSegment_resolves:
  assumes "seekToThrows player = None"
  shows "playSegment player start e = Some (r, tr) \<longleftrightarrow>
         r = Resolved \<and>
         (\<exists>k. reached player e k \<and> (\<forall>j<k. \<not> reached player e j)
              \<and> tr = segmentTrace player start k)"
proof
  assume "playSegment player start e = Some (r, tr)"
  with assms show "r = Resolved \<and> (\<exists>k. reached player e k \<and> (\<forall>j<k. \<not> reached player e j)
              \<and> tr = segmentTrace player start k)"
    by (rule playSegment_settled)
next
  assume "r = Resolved \<and> (\<exists>k. reached player e k \<and> (\<forall>j<k. \<not> reached player e j)
              \<and> tr = segmentTrace player start k)"
  then show "playSegment player start e = Some (r, tr)"
    using playSegment_first [OF assms] by auto
qed

lemma demoSurface_reached:
  "reached (demoSurface i) e k \<longleftrightarrow> e \<le> 15 * real i + 5 + 3 * real k"
  by (simp add: reached_def demoSurface_def)

theorem playSegment_resolves_witness:
  "playSegment (demoSurface 0) 5 10
     = Some (Resolved, [SeekTo 5 True, PlayVideo, SetInterval 100,
                        GetCurrentTime (Num 5), GetCurrentTime (Num 8), GetCurrentTime (Num 11),
                        ClearInterval, PauseVideo, SetTimeout 200, Resolve])"
proof -
  have h: "seekToThrows (demoSurface 0) = None" by (simp add: demoSurface_def)
  have r: "reached (demoSurface 0) 10 2 \<and> (\<forall>j<2. \<not> reached (demoSurface 0) 10 j)"
    by (simp add: demoSurface_reached numeral_2_eq_2 less_Suc_eq)
  have t: "segmentTrace (demoSurface 0) 5 2
             = [SeekTo 5 True, PlayVideo, SetInterval 100,
                GetCurrentTime (Num 5), GetCurrentTime (Num 8), GetCurrentTime (Num 11),
                ClearInterval, PauseVideo, SetTimeout 200, Resolve]"
    by (simp add: segmentTrace_def samples_def demoSurface_def upt_rec numeral_3_eq_3)
  from playSegment_resolves [OF h, of 5 10 Resolved "segmentTrace (demoSurface 0) 5 2"] r
  have "playSegment (demoSurface 0) 5 10 = Some (Resolved, segmentTrace (demoSurface 0) 5 2)"
    by blast
  then show ?thesis by (simp only: t)
qed

lemma count_samples [simp]:
  "count_list (samples player k m) ClearInterval = 0"
  "count_list (samples player k m) (SetInterval d) = 0"
  by (simp_all add: samples_def count_list_0_iff image_iff)

lemma dropWhile_samples [simp]:
  "dropWhile (\<lambda>x. x \<noteq> ClearInterval) (samples player k m @ rest)
     = dropWhile (\<lambda>x. x \<noteq> ClearInterval) rest"
  by (rule dropWhile_append2) (auto simp add: samples_def)

section \<open>The clip queue\<close>

lemma js_insert_byStart: "js_insert byStart x ys = insort_key clip_start x ys"
  by (induction ys) (simp_all add: byStart_def)

lemma js_sort_byStart: "js_sort byStart xs = sort_key clip_start xs"
proof -
  have "js_insert byStart = insort_key clip_start"
    by (intro ext) (rule js_insert_byStart)
  then show ?thesis by (simp add: js_sort_def sort_key_def)
qed

lemma handleAddClip_valid:
  assumes "parseTimeToSeconds (startTime s) = Num a"
    and "parseTimeToSeconds (endTime s) = Num b"
    and "a < b"
  shows "handleAddClip parseTimeToSeconds now s =
           s\<lparr>error := None,
             clips := js_sort byStart (clips s @ [\<lparr>clip_id = show_nat now, clip_start = a, clip_end = b\<rparr>]),
             startTime := [], endTime := []\<rparr>"
  using assms by (simp add: handleAddClip_def Let_def isNaN_def)

text \<open>
  C7. When both texts parse to numbers and \<open>start < end\<close>, the queue after
  \<open>handleAddClip\<close> is sorted ascending by \<open>start\<close>, holds exactly the old clips and the
  new one, and among clips of equal \<open>start\<close> keeps the order of the array that was sorted
  (the old queue, then the new clip): ties are broken by insertion order.
\<close>

theorem handleAddClip_sorted_stable:
  assumes "parseTimeToSeconds (startTime s) = Num a"
    and "parseTimeToSeconds (endTime s) = Num b"
    and "a < b"
  shows "let newClip = \<lparr>clip_id = show_nat now, clip_start = a, clip_end = b\<rparr>;
             queue = clips (handleAddClip parseTimeToSeconds now s)
         in sorted (map clip_start queue)
          \<and> mset queue = mset (clips s @ [newClip])
          \<and> (\<forall>k. filter (\<lambda>c. clip_start c = k) queue
                   = filter (\<lambda>c. clip_start c = k) (clips s @ [newClip]))"
proof -
  let ?new = "\<lparr>clip_id = show_nat now, clip_start = a, clip_end = b\<rparr>"
  have q: "clips (handleAddClip parseTimeToSeconds now s) = sort_key clip_start (clips s @ [?new])"
    by (simp add: handleAddClip_valid [OF assms] js_sort_byStart)
  have "sorted (map clip_start (sort_key clip_start (clips s @ [?new])))"
    by (rule sorted_sort_key)
  moreover have "mset (sort_key clip_start (clips s @ [?new])) = mset (clips s @ [?new])"
    by (rule mset_sort)
  moreover have "\<forall>k. filter (\<lambda>c. clip_start c = k) (sort_key clip_start (clips s @ [?new]))
                   = filter (\<lambda>c. clip_start c = k) (clips s @ [?new])"
    by (simp add: sort_key_stable)
  ultimately show ?thesis unfolding Let_def q by blast
qed

theorem handleAddClip_sorted_stable_witness:
  "clips (handleAddClip parseDemo 7
      (initialApp\<lparr>clips := [demoClip ''a'' 5 10, demoClip ''b'' 20 25],
                  startTime := ''0:05'', endTime := ''0:20''\<rparr>))
   = [demoClip ''a'' 5 10, demoClip ''7'' 5 20, demoClip ''b'' 20 25]
   \<and> sorted (map clip_start (clips (handleAddClip parseDemo 7
      (initialApp\<lparr>clips := [demoClip ''a'' 5 10, demoClip ''b'' 20 25],
                  startTime := ''0:05'', endTime := ''0:20''\<rparr>))))"
proof -
  let ?s = "initialApp\<lparr>clips := [demoClip ''a'' 5 10, demoClip ''b'' 20 25],
                  startTime := ''0:05'', endTime := ''0:20''\<rparr>"
  have h1: "parseDemo (startTime ?s) = Num 5" by (simp add: parseDemo_def)
  have h2: "parseDemo (endTime ?s) = Num 20" by (simp add: parseDemo_def)
  have h3: "(5::real) < 20" by simp
  have e: "clips (handleAddClip parseDemo 7 ?s)
             = [demoClip ''a'' 5 10, demoClip ''7'' 5 20, demoClip ''b'' 20 25]"
    by (simp add: handleAddClip_def parseDemo_def Let_def isNaN_def js_sort_def byStart_def
        demoClip_def initialApp_def show_nat.simps digit_def)
  from handleAddClip_sorted_stable [OF h1 h2 h3, of 7]
  have "sorted (map clip_start (clips (handleAddClip parseDemo 7 ?s)))"
    unfolding Let_def by blast
  with e show ?thesis by simp
qed

text \<open>
  C8. When the parsed start or the parsed end is not a number, or \<open>start >= end\<close>,
  \<open>handleAddClip\<close> sets an error message and changes nothing else: the queue is the one
  before the call.
\<close>

theorem handleAddClip_rejects:
  assumes "parseTimeToSeconds (startTime s) = NaN \<or> parseTimeToSeconds (endTime s) = NaN
           \<or> js_ge (parseTimeToSeconds (startTime s)) (parseTimeToSeconds (endTime s))"
  shows "clips (handleAddClip parseTimeToSeconds now s) = clips s
       \<and> error (handleAddClip parseTimeToSeconds now s) \<noteq> None
       \<and> handleAddClip parseTimeToSeconds now s =
           s\<lparr>error := Some (if js_ge (parseTimeToSeconds (startTime s)) (parseTimeToSeconds (endTime s))
                             then ''End time must be after start time.''
                             else ''Invalid time format. Please use MM:SS or HH:MM:SS.'')\<rparr>"
  using assms by (auto simp add: handleAddClip_def Let_def isNaN_def)

theorem handleAddClip_rejects_witness:
  "clips (handleAddClip parseDemo 7
      (initialApp\<lparr>clips := [demoClip ''a'' 5 10], startTime := ''0:20'', endTime := ''0:xx''\<rparr>))
     = [demoClip ''a'' 5 10]
   \<and> error (handleAddClip parseDemo 7
      (initialApp\<lparr>clips := [demoClip ''a'' 5 10], startTime := ''0:20'', endTime := ''0:xx''\<rparr>))
     = Some ''Invalid time format. Please use MM:SS or HH:MM:SS.''"
proof -
  let ?s = "initialApp\<lparr>clips := [demoClip ''a'' 5 10], startTime := ''0:20'', endTime := ''0:xx''\<rparr>"
  have h: "parseDemo (startTime ?s) = NaN \<or> parseDemo (endTime ?s) = NaN
           \<or> js_ge (parseDemo (startTime ?s)) (parseDemo (endTime ?s))"
    by (simp add: parseDemo_def)
  have "parseDemo (endTime ?s) = NaN" by (simp add: parseDemo_def)
  with handleAddClip_rejects [OF h, of 7] show ?thesis by simp
qed

section \<open>The guard of \<open>handleCreateVideo\<close>\<close>

text \<open>
  C10. With an empty clip queue, or with no player handle yet, \<open>handleCreateVideo\<close>
  returns at once and its only change to the state is the error message: no effect is
  logged (no capture request, no segment playback), and \<open>isProcessing\<close> and the queue are
  what they were.
\<close>

theorem handleCreateVideo_guard:
  assumes "clips s = [] \<or> playerRef s = None"
  shows "handleCreateVideo env formatTime s
           = Some (s\<lparr>error := Some ''Please add at least one clip.''\<rparr>)"
  using assms by (auto simp add: handleCreateVideo_def)

theorem handleCreateVideo_guard_witness:
  "handleCreateVideo demoEnv demoFormat (initialApp\<lparr>clips := [demoClip ''a'' 5 10]\<rparr>)
     = Some (initialApp\<lparr>clips := [demoClip ''a'' 5 10],
                        error := Some ''Please add at least one clip.''\<rparr>)
   \<and> trace (initialApp\<lparr>clips := [demoClip ''a'' 5 10],
                        error := Some ''Please add at least one clip.''\<rparr>) = []"
proof -
  have h: "clips (initialApp\<lparr>clips := [demoClip ''a'' 5 10]\<rparr>) = []
           \<or> playerRef (initialApp\<lparr>clips := [demoClip ''a'' 5 10]\<rparr>) = None"
    by (simp add: initialApp_def)
  from handleCreateVideo_guard [OF h] show ?thesis by (simp add: initialApp_def)
qed

section \<open>What the handlers do to the state\<close>

lemma trace_emit [simp]: "trace (emit effs s) = trace s @ effs"
  by (simp add: emit_def)

lemma stopTracks_fields [simp]:
  "stream (stopTracks s) = map_option (map Suc) (stream s)"
  "listener (stopTracks s) = listener s"
  "isProcessing (stopTracks s) = isProcessing s"
  "error (stopTracks s) = error s"
  "recorder (stopTracks s) = recorder s"
  "stopQueued (stopTracks s) = stopQueued s"
  "recordedChunks (stopTracks s) = recordedChunks s"
  "clips (stopTracks s) = clips s"
  "playerRef (stopTracks s) = playerRef s"
  "finishedVideoUrl (stopTracks s) = finishedVideoUrl s"
  "processingStatus (stopTracks s) = processingStatus s"
  by (simp_all add: stopTracks_def emit_def split: option.splits)

lemma onstop_fields [simp]:
  "stream (onstop s) = map_option (map Suc) (stream s)"
  "listener (onstop s) = False"
  "isProcessing (onstop s) = False"
  "error (onstop s) = error s"
  "recorder (onstop s) = recorder s"
  "stopQueued (onstop s) = stopQueued s"
  "recordedChunks (onstop s) = recordedChunks s"
  "clips (onstop s) = clips s"
  "playerRef (onstop s) = playerRef s"
  "finishedVideoUrl (onstop s)
     = (if recordedChunks s = [] then finishedVideoUrl s
        else Some (ObjectURL (concat (recordedChunks s))))"
  "processingStatus (onstop s)
     = (if recordedChunks s = [] then processingStatus s else ''Done!'')"
  by (simp_all add: onstop_def removeEventListener_def emit_def Let_def)

lemma ondataavailable_fields [simp]:
  "stream (ondataavailable d s) = stream s"
  "listener (ondataavailable d s) = listener s"
  "isProcessing (ondataavailable d s) = isProcessing s"
  "error (ondataavailable d s) = error s"
  "recorder (ondataavailable d s) = recorder s"
  "stopQueued (ondataavailable d s) = stopQueued s"
  "finishedVideoUrl (ondataavailable d s) = finishedVideoUrl s"
  "processingStatus (ondataavailable d s) = processingStatus s"
  "clips (ondataavailable d s) = clips s"
  "playerRef (ondataavailable d s) = playerRef s"
  "recordedChunks (ondataavailable d s) = (if d = [] then recordedChunks s else recordedChunks s @ [d])"
  by (simp_all add: ondataavailable_def)

lemma recorder_stop_fields [simp]:
  "stream (recorder_stop s) = stream s"
  "listener (recorder_stop s) = listener s"
  "isProcessing (recorder_stop s) = isProcessing s"
  "error (recorder_stop s) = error s"
  "recorder (recorder_stop s) = Some Inactive"
  "stopQueued (recorder_stop s) = True"
  "recordedChunks (recorder_stop s) = recordedChunks s"
  "clips (recorder_stop s) = clips s"
  "playerRef (recorder_stop s) = playerRef s"
  "finishedVideoUrl (recorder_stop s) = finishedVideoUrl s"
  "processingStatus (recorder_stop s) = processingStatus s"
  by (simp_all add: recorder_stop_def emit_def)

lemma started_fields [simp]:
  "stream (started nt p s) = Some (replicate nt 0)"
  "listener (started nt p s) = True"
  "isProcessing (started nt p s) = isProcessing s"
  "error (started nt p s) = error s"
  "recorder (started nt p s) = Some Recording"
  "stopQueued (started nt p s) = stopQueued s"
  "recordedChunks (started nt p s) = []"
  "finishedVideoUrl (started nt p s) = finishedVideoUrl s"
  by (simp_all add: started_def)

lemma visibilityHandler_fields [simp]:
  "listener (visibilityHandler h s) = (listener s \<and> \<not> h)"
  "recorder (visibilityHandler h s)
     = (if h \<and> recorder s = Some Recording then Some Inactive else recorder s)"
  by (simp_all add: visibilityHandler_def removeEventListener_def emit_def Let_def)

lemma flush_fields [simp]:
  "listener (flush env s) = (listener s \<and> \<not> stopQueued s)"
  "recorder (flush env s) = recorder s"
  by (simp_all add: flush_def)

lemma catchBlock_fields [simp]:
  "listener (catchBlock err s) = False"
  "stopQueued (catchBlock err s) = stopQueued s"
  "trace (catchBlock err s) = trace s @ [RemoveEventListener, ConsoleError]"
  by (simp_all add: catchBlock_def removeEventListener_def emit_def Let_def)






lemma watched_deliver: "watched s \<Longrightarrow> watched (deliver env h s)"
  by (simp add: watched_def deliver_def)

section \<open>What the handlers add to the log\<close>

lemma filter_segmentEvent_samples [simp]:
  "filter segmentEvent (samples player k m) = []"
  by (simp add: samples_def)


lemma filter_segmentEvent_TrackStop [simp]:
  "filter segmentEvent (map TrackStop xs) = []"
  by (induction xs) simp_all

lemma filter_segmentEvent_stopTracks [simp]:
  "filter segmentEvent (trace (stopTracks s)) = filter segmentEvent (trace s)"
  by (simp add: stopTracks_def split: option.splits)

lemma filter_segmentEvent_removeEventListener [simp]:
  "filter segmentEvent (trace (removeEventListener s)) = filter segmentEvent (trace s)"
  by (simp add: removeEventListener_def)

lemma filter_segmentEvent_recorder_stop [simp]:
  "filter segmentEvent (trace (recorder_stop s)) = filter segmentEvent (trace s)"
  by (simp add: recorder_stop_def)

lemma filter_segmentEvent_visibilityHandler [simp]:
  "filter segmentEvent (trace (visibilityHandler h s)) = filter segmentEvent (trace s)"
  by (simp add: visibilityHandler_def Let_def)

lemma trace_ondataavailable [simp]: "trace (ondataavailable d s) = trace s"
  by (simp add: ondataavailable_def)

lemma filter_segmentEvent_onstop [simp]:
  "filter segmentEvent (trace (onstop s)) = filter segmentEvent (trace s)"
  by (simp add: onstop_def Let_def)

lemma filter_segmentEvent_flush [simp]:
  "filter segmentEvent (trace (flush env s)) = filter segmentEvent (trace s)"
  by (simp add: flush_def)







lemma prefix_emit [simp]: "prefix (trace s) (trace (emit effs s))"
  by (simp add: emit_def)

lemma prefix_stopTracks: "prefix (trace s) (trace (stopTracks s))"
  by (simp add: stopTracks_def split: option.splits)

lemma prefix_removeEventListener: "prefix (trace s) (trace (removeEventListener s))"
  by (simp add: removeEventListener_def)

lemma prefix_recorder_stop: "prefix (trace s) (trace (recorder_stop s))"
  by (simp add: recorder_stop_def)

lemma prefix_visibilityHandler: "prefix (trace s) (trace (visibilityHandler h s))"
proof (cases h)
  case True
  let ?s1 = "if recorder s = Some Recording then recorder_stop s else s"
  have "prefix (trace s) (trace ?s1)" by (simp add: prefix_recorder_stop)
  also have "prefix (trace ?s1) (trace (stopTracks ?s1))" by (rule prefix_stopTracks)
  also have "prefix (trace (stopTracks ?s1)) (trace (removeEventListener (stopTracks ?s1)))"
    by (rule prefix_removeEventListener)
  finally show ?thesis using True by (simp add: visibilityHandler_def Let_def)
next
  case False
  then show ?thesis by (simp add: visibilityHandler_def)
qed

lemma prefix_onstop: "prefix (trace s) (trace (onstop s))"
proof -
  let ?s1 = "removeEventListener s"
  let ?s2 = "if length (recordedChunks ?s1) > 0
             then ?s1\<lparr>finishedVideoUrl := Some (ObjectURL (concat (recordedChunks ?s1))),
                     processingStatus := ''Done!''\<rparr>
             else ?s1"
  have "prefix (trace s) (trace ?s1)" by (rule prefix_removeEventListener)
  also have "trace ?s1 = trace (?s2\<lparr>isProcessing := False\<rparr>)" by simp
  also have "prefix (trace (?s2\<lparr>isProcessing := False\<rparr>)) (trace (stopTracks (?s2\<lparr>isProcessing := False\<rparr>)))"
    by (rule prefix_stopTracks)
  finally show ?thesis by (simp add: onstop_def Let_def)
qed

lemma prefix_flush: "prefix (trace s) (trace (flush env s))"
proof (cases "stopQueued s")
  case True
  have "prefix (trace (ondataavailable (captured env) (s\<lparr>stopQueued := False\<rparr>)))
          (trace (onstop (ondataavailable (captured env) (s\<lparr>stopQueued := False\<rparr>))))"
    by (rule prefix_onstop)
  then show ?thesis using True by (simp add: flush_def)
next
  case False
  then show ?thesis by (simp add: flush_def)
qed

lemma prefix_deliver: "prefix (trace s) (trace (deliver env h s))"
proof -
  let ?s1 = "if listener s then visibilityHandler h s else s"
  have "prefix (trace s) (trace ?s1)" by (simp add: prefix_visibilityHandler)
  also have "prefix (trace ?s1) (trace (flush env ?s1))" by (rule prefix_flush)
  finally show ?thesis by (simp add: deliver_def)
qed

section \<open>The orchestration loop\<close>


lemma deliverAll_preserves:
  assumes "P s" and "\<And>s h. P s \<Longrightarrow> P (deliver env h s)"
  shows "P (deliverAll env hs s)"
  using assms(1)
proof (induction hs arbitrary: s)
  case Nil
  then show ?case by simp
next
  case (Cons h hs)
  then show ?case using assms(2) by simp
qed

lemma segmentLoop_preserves:
  assumes "segmentLoop env fmt p n i cs s = Some (r, s')" and "P s"
    and seg: "\<And>s j c r tr. P s \<Longrightarrow>
                playSegment (segment p j) (clip_start c) (clip_end c) = Some (r, tr) \<Longrightarrow>
                P (emit tr (emit [Progress (j + 1) n c]
                     (s\<lparr>processingStatus := statusRecording fmt j n c\<rparr>)))"
    and del: "\<And>s h. P s \<Longrightarrow> P (deliver env h s)"
  shows "P s'"
  using assms(1,2)
proof (induction cs arbitrary: i s)
  case Nil
  then show ?case by simp
next
  case (Cons c cs)
  let ?s1 = "emit [Progress (i + 1) n c] (s\<lparr>processingStatus := statusRecording fmt i n c\<rparr>)"
  show ?case
  proof (cases "playSegment (segment p i) (clip_start c) (clip_end c)")
    case None
    with Cons.prems(1) show ?thesis by (simp add: Let_def)
  next
    case (Some res)
    obtain out tr where res: "res = (out, tr)" by (cases res)
    have P1: "P (emit tr ?s1)" using seg [OF Cons.prems(2)] Some res by blast
    show ?thesis
    proof (cases out)
      case Resolved
      with Cons.prems(1) Some res
      have "segmentLoop env fmt p n (Suc i) cs (deliverAll env (arrivals env i) (emit tr ?s1)) = Some (r, s')"
        by (simp add: Let_def)
      moreover have "P (deliverAll env (arrivals env i) (emit tr ?s1))"
        using P1 del by (rule deliverAll_preserves)
      ultimately show ?thesis by (rule Cons.IH)
    next
      case (Rejected err)
      with Cons.prems(1) Some res have "s' = emit tr ?s1" by (simp add: Let_def)
      with P1 show ?thesis by simp
    qed
  qed
qed



lemma tryBlock_started:
  assumes "displayMedia env = Inr nt" and "recorderCtor env = None"
    and "playerRef s = Some p" and "controlThrows p = None"
  shows "tryBlock env fmt s =
           (case segmentLoop env fmt p (length (clips s)) 0 (clips s) (started nt p s) of
              None \<Rightarrow> None
            | Some (Some err, s8) \<Rightarrow> Some (Some err, s8)
            | Some (None, s8) \<Rightarrow>
                Some (None, if recorder s8 = Some Recording then recorder_stop s8 else s8))"
proof -
  have "emit [SetVolume 100]
          (emit (if isMuted p then [IsMuted, UnMute] else [IsMuted])
            (emit [RecorderStart]
              ((emit [NewMediaRecorder]
                 ((addEventListener (emit [GetDisplayMedia] (s\<lparr>stream := Some (replicate nt 0)\<rparr>)))
                    \<lparr>recorder := Some Inactive\<rparr>))
                 \<lparr>recordedChunks := [], recorder := Some Recording\<rparr>)))
        = started nt p s"
    by (simp add: started_def emit_def addEventListener_def)
  then show ?thesis
    using assms by (simp add: tryBlock_def Let_def emit_def addEventListener_def)
qed

lemma tryBlock_outcome:
  assumes "tryBlock env fmt s = Some (r, s')"
  shows "(r = None \<longrightarrow> stopQueued s' \<or> \<not> listener s')
       \<and> (case displayMedia env of
            Inl err \<Rightarrow> r = Some err \<and> s' = emit [GetDisplayMedia] s
          | Inr nt \<Rightarrow> prefix (trace s @ [GetDisplayMedia, AddEventListener]) (trace s'))"
proof (cases "displayMedia env")
  case (Inl err)
  with assms show ?thesis by (auto simp add: tryBlock_def emit_def)
next
  case (Inr nt)
  let ?base = "trace s @ [GetDisplayMedia, AddEventListener]"
  let ?s2 = "addEventListener (emit [GetDisplayMedia] (s\<lparr>stream := Some (replicate nt 0)\<rparr>))"
  have b2: "trace ?s2 = ?base" by (simp add: addEventListener_def emit_def)
  show ?thesis
  proof (cases "recorderCtor env")
    case (Some err)
    with assms Inr have "r = Some err" "s' = emit [NewMediaRecorder] ?s2"
      by (simp_all add: tryBlock_def Let_def)
    then show ?thesis using Inr b2 by (simp add: emit_def)
  next
    case None
    let ?s5 = "emit [RecorderStart]
                 ((emit [NewMediaRecorder] (?s2\<lparr>recorder := Some Inactive\<rparr>))
                    \<lparr>recordedChunks := [], recorder := Some Recording\<rparr>)"
    have b5: "prefix ?base (trace ?s5)" by (simp add: addEventListener_def emit_def)
    have w5: "watched ?s5" by (simp add: watched_def emit_def)
    show ?thesis
    proof (cases "playerRef s")
      case None
      with assms Inr \<open>recorderCtor env = None\<close>
      have "r = Some (Error ''player is null'')" "s' = ?s5"
        by (simp_all add: tryBlock_def Let_def emit_def addEventListener_def)
      then show ?thesis using Inr b5 by simp
    next
      case (Some p)
      note pl = this
      show ?thesis
      proof (cases "controlThrows p")
        case (Some err)
        with assms Inr \<open>recorderCtor env = None\<close> pl
        have "r = Some err" "s' = emit [IsMuted] ?s5"
          by (simp_all add: tryBlock_def Let_def emit_def addEventListener_def)
        then show ?thesis using Inr b5 by (simp add: emit_def addEventListener_def)
      next
        case None
        let ?s7 = "started nt p s"
        let ?P = "\<lambda>s. watched s \<and> prefix ?base (trace s)"
        have P7: "?P ?s7" by (simp add: watched_def started_def)
        from assms tryBlock_started [OF Inr \<open>recorderCtor env = None\<close> pl None, of fmt]
        obtain r8 s8 where l: "segmentLoop env fmt p (length (clips s)) 0 (clips s) ?s7 = Some (r8, s8)"
          and out: "(r8 = None \<and> r = None \<and> s' = (if recorder s8 = Some Recording then recorder_stop s8 else s8))
                  \<or> (r8 \<noteq> None \<and> r = r8 \<and> s' = s8)"
          by (auto split: option.splits)
        have P8: "?P s8"
        proof (rule segmentLoop_preserves [OF l, where P = ?P])
          show "?P ?s7" by (rule P7)
        next
          fix x j c r tr
          assume "watched x \<and> prefix ?base (trace x)"
          then show "watched (emit tr (emit [Progress (j + 1) (length (clips s)) c]
                        (x\<lparr>processingStatus := statusRecording fmt j (length (clips s)) c\<rparr>)))
                   \<and> prefix ?base (trace (emit tr (emit [Progress (j + 1) (length (clips s)) c]
                        (x\<lparr>processingStatus := statusRecording fmt j (length (clips s)) c\<rparr>))))"
            by (auto simp add: watched_def emit_def prefix_def)
        next
          fix x h
          assume a: "watched x \<and> prefix ?base (trace x)"
          then have "watched (deliver env h x)" by (simp add: watched_deliver)
          moreover from a have "prefix ?base (trace (deliver env h x))"
            using prefix_deliver prefix_order.trans by blast
          ultimately show "watched (deliver env h x) \<and> prefix ?base (trace (deliver env h x))" ..
        qed
        from out show ?thesis
        proof
          assume o: "r8 = None \<and> r = None \<and> s' = (if recorder s8 = Some Recording then recorder_stop s8 else s8)"
          have "stopQueued s' \<or> \<not> listener s'"
            using o P8 by (auto simp add: watched_def)
          moreover have "prefix ?base (trace s')"
          proof -
            have "prefix (trace s8) (trace s')" using o by (simp add: prefix_recorder_stop)
            with P8 show ?thesis using prefix_order.trans by blast
          qed
          ultimately show ?thesis using Inr by simp
        next
          assume "r8 \<noteq> None \<and> r = r8 \<and> s' = s8"
          with P8 Inr show ?thesis by auto
        qed
      qed
    qed
  qed
qed



lemma demo_facts:
  "clips demoApp \<noteq> []" "playerRef demoApp = Some demoPlayer"
  "displayMedia demoEnv = Inr 2" "recorderCtor demoEnv = None" "controlThrows demoPlayer = None"
  "sorted (map clip_start (clips demoApp))" "trace demoApp = []"
  "map clip_start (clips demoApp) = [5, 20]" "captured demoEnv = [7, 7, 7]"
  "\<forall>j<length (clips demoApp). arrivals demoEnv j = []"
  by (simp_all add: demoApp_def initialApp_def demoClip_def demoPlayer_def demoEnv_def)


section \<open>Sequencing of the segments\<close>



section \<open>Finalization of the recording\<close>




section \<open>Cancellation\<close>




section \<open>Registration of the cancellation watcher\<close>

text \<open>
  C5, as the code has it. In every run that passes the guard and ends, the handler is no
  longer registered at the end, whether the run succeeded, failed or was cancelled. It is
  registered right after \<open>getDisplayMedia\<close> has delivered the stream, not before: the
  first two effects of such a run are the capture request and then the registration, and a
  run whose capture request is rejected never registers the handler.
\<close>

theorem watcher_registered_after_acquisition:
  assumes "clips s \<noteq> []" and "playerRef s \<noteq> None"
    and "runCreateVideo env fmt s = Some s'"
  shows "\<not> listener s'
       \<and> (case displayMedia env of
            Inl err \<Rightarrow> trace s' = trace s @ [GetDisplayMedia, RemoveEventListener, ConsoleError]
          | Inr nt \<Rightarrow> prefix (trace s @ [GetDisplayMedia, AddEventListener]) (trace s'))"
proof -
  let ?s2 = "s\<lparr>error := None, finishedVideoUrl := None, isProcessing := True,
               processingStatus := ''Action Required: Please select THIS tab in the screen share prompt.'',
               stream := None, recorder := None, listener := False, stopQueued := False\<rparr>"
  from assms obtain r s3 where t: "tryBlock env fmt ?s2 = Some (r, s3)"
    and s': "s' = flush env (case r of None \<Rightarrow> s3 | Some err \<Rightarrow> catchBlock err s3)"
    by (auto simp add: runCreateVideo_def handleCreateVideo_def Let_def split: option.splits)
  note o = tryBlock_outcome [OF t]
  let ?s4 = "case r of None \<Rightarrow> s3 | Some err \<Rightarrow> catchBlock err s3"
  have l: "\<not> listener s'"
    using o by (cases r) (auto simp add: s')
  have p: "prefix (trace s3) (trace s')"
  proof -
    have "prefix (trace s3) (trace ?s4)" by (cases r) simp_all
    also have "prefix (trace ?s4) (trace (flush env ?s4))" by (rule prefix_flush)
    finally show ?thesis by (simp add: s')
  qed
  show ?thesis
  proof (cases "displayMedia env")
    case (Inl err)
    with o have "r = Some err" "s3 = emit [GetDisplayMedia] ?s2" by simp_all
    then have "s' = catchBlock err (emit [GetDisplayMedia] ?s2)"
      by (simp add: s' flush_def emit_def)
    then show ?thesis using l Inl by (simp add: emit_def)
  next
    case (Inr nt)
    with o have "prefix (trace s @ [GetDisplayMedia, AddEventListener]) (trace s3)" by simp
    with p have "prefix (trace s @ [GetDisplayMedia, AddEventListener]) (trace s')"
      using prefix_order.trans by blast
    then show ?thesis using l Inr by simp
  qed
qed

theorem watcher_registered_after_acquisition_witness:
  "\<exists>s'. runCreateVideo demoEnv demoFormat demoApp = Some s' \<and> \<not> listener s'
        \<and> prefix [GetDisplayMedia, AddEventListener] (trace s')"
proof -
  have "runCreateVideo demoEnv demoFormat demoApp \<noteq> None" by code_simp
  then obtain s' where r: "runCreateVideo demoEnv demoFormat demoApp = Some s'" by blast
  have pl: "playerRef demoApp \<noteq> None" by (simp add: demo_facts)
  from watcher_registered_after_acquisition [OF demo_facts(1) pl r]
  have "\<not> listener s' \<and> prefix [GetDisplayMedia, AddEventListener] (trace s')"
    by (simp add: demo_facts)
  with r show ?thesis by blast
qed

text \<open>
  C5 as stated fails: the capture request precedes the registration, and when the request
  is denied the handler was never registered.
\<close>

theorem watcher_not_registered_before_acquisition:
  "map_option (take 2 \<circ> trace) (runCreateVideo demoEnv demoFormat demoApp)
     = Some [GetDisplayMedia, AddEventListener]
   \<and> map_option trace (runCreateVideo demoEnvDenied demoFormat demoApp)
     = Some [GetDisplayMedia, RemoveEventListener, ConsoleError]"
  by code_simp

section \<open>Exceptions after the stream was acquired\<close>

text \<open>
  C1. The \<open>catch\<close> block deregisters the handler and reports the cause, but unlike
  \<open>onstop\<close> and \<open>visibilityHandler\<close> it stops neither the tracks nor the recorder. When
  \<open>new MediaRecorder\<close> throws, the run ends with both tracks of the acquired stream never
  stopped; when the player throws at the second \<open>seekTo\<close>, it ends with the tracks never
  stopped and the recorder still recording.
\<close>

theorem tracks_left_running_after_exception:
  "map_option trace (runCreateVideo demoEnvNoWebm demoFormat demoApp)
     = Some [GetDisplayMedia, AddEventListener, NewMediaRecorder, RemoveEventListener, ConsoleError]
   \<and> map_option stream (runCreateVideo demoEnvNoWebm demoFormat demoApp) = Some (Some [0, 0])
   \<and> map_option error (runCreateVideo demoEnvNoWebm demoFormat demoApp)
       = Some (Some ''Could not start screen capture: mimeType is not supported'')
   \<and> map_option listener (runCreateVideo demoEnvNoWebm demoFormat demoApp) = Some False
   \<and> map_option stream (runCreateVideo demoEnv demoFormat demoAppBroken) = Some (Some [0, 0])
   \<and> map_option recorder (runCreateVideo demoEnv demoFormat demoAppBroken) = Some (Some Recording)
   \<and> map_option error (runCreateVideo demoEnv demoFormat demoAppBroken)
       = Some (Some ''An error occurred: player destroyed'')"
  by code_simp

section \<open>Timers\<close>


lemma filter_timerEvent_samples [simp]: "filter timerEvent (samples player k m) = []"
  by (simp add: samples_def)


lemma filter_timerEvent_TrackStop [simp]: "filter timerEvent (map TrackStop xs) = []"
  by (induction xs) simp_all

lemma filter_timerEvent_stopTracks [simp]:
  "filter timerEvent (trace (stopTracks s)) = filter timerEvent (trace s)"
  by (simp add: stopTracks_def split: option.splits)

lemma filter_timerEvent_removeEventListener [simp]:
  "filter timerEvent (trace (removeEventListener s)) = filter timerEvent (trace s)"
  by (simp add: removeEventListener_def)

lemma filter_timerEvent_recorder_stop [simp]:
  "filter timerEvent (trace (recorder_stop s)) = filter timerEvent (trace s)"
  by (simp add: recorder_stop_def)

lemma filter_timerEvent_visibilityHandler [simp]:
  "filter timerEvent (trace (visibilityHandler h s)) = filter timerEvent (trace s)"
  by (simp add: visibilityHandler_def Let_def)

lemma filter_timerEvent_onstop [simp]:
  "filter timerEvent (trace (onstop s)) = filter timerEvent (trace s)"
  by (simp add: onstop_def Let_def)

lemma filter_timerEvent_flush [simp]:
  "filter timerEvent (trace (flush env s)) = filter timerEvent (trace s)"
  by (simp add: flush_def)

lemma filter_timerEvent_deliver [simp]:
  "filter timerEvent (trace (deliver env h s)) = filter timerEvent (trace s)"
  by (simp add: deliver_def)

lemma filter_timerEvent_started [simp]:
  "filter timerEvent (trace (started nt p s)) = filter timerEvent (trace s)"
  by (simp add: started_def)







end
